theory Spec2Isabelle
  imports Main "HOL-Library.Word"
begin

section \<open>Python values, exceptions and results\<close>

text \<open>
  The values that flow through the service are the ones \<^verbatim>\<open>json.loads\<close> produces:
  \<^verbatim>\<open>None\<close>, booleans, integers, floats, strings, lists and dictionaries with string
  keys. A float is its IEEE 754 binary64 bit pattern. A Python \<^verbatim>\<open>str\<close> is
  modelled by its UTF-8 bytes, so ASCII literals read as in the source. A dictionary is
  an association list in insertion order; a lookup takes the first binding of a key.
\<close>

datatype pyval =
    PNone
  | PBool bool
  | PInt int
  | PFloat "64 word"
  | PStr string
  | PList "pyval list"
  | PDict "(string \<times> pyval) list"

text \<open>
  An exception is the name of its class (\<^verbatim>\<open>type(e).__name__\<close>) and its message
  (\<^verbatim>\<open>str(e)\<close>). The exceptions of the model are the instances of Python's
  \<^verbatim>\<open>Exception\<close>, the class every handler of the source names; the system-exiting
  classes (\<^verbatim>\<open>KeyboardInterrupt\<close>, \<^verbatim>\<open>SystemExit\<close>) are not part of it.
\<close>

datatype exn = Exn (exn_type: string) (exn_msg: string)

datatype 'a result = Ok 'a | Raise exn

fun bind :: "'a result \<Rightarrow> ('a \<Rightarrow> 'b result) \<Rightarrow> 'b result" where
  "bind (Ok x) f = f x"
| "bind (Raise e) f = Raise e"

text \<open>\<^verbatim>\<open>isinstance(e, NotFound)\<close>, the test of the clause \<^verbatim>\<open>except NotFound\<close>.\<close>

definition isinstance_NotFound :: "exn \<Rightarrow> bool" where
  "isinstance_NotFound e = (exn_type e = ''NotFound'')"

subsection \<open>Built-in operations of Python used by the source\<close>

text \<open>Truth value testing, as \<^verbatim>\<open>if not x\<close> does it: \<^verbatim>\<open>None\<close>, \<^verbatim>\<open>False\<close>, zero
  of either sign and empty containers are false, everything else (NaN too) is true.\<close>

fun truthy :: "pyval \<Rightarrow> bool" where
  "truthy PNone = False"
| "truthy (PBool b) = b"
| "truthy (PInt i) = (i \<noteq> 0)"
| "truthy (PFloat w) = (take_bit 63 w \<noteq> 0)"
| "truthy (PStr s) = (s \<noteq> [])"
| "truthy (PList xs) = (xs \<noteq> [])"
| "truthy (PDict kvs) = (kvs \<noteq> [])"

fun type_name :: "pyval \<Rightarrow> string" where
  "type_name PNone = ''NoneType''"
| "type_name (PBool b) = ''bool''"
| "type_name (PInt i) = ''int''"
| "type_name (PFloat w) = ''float''"
| "type_name (PStr s) = ''str''"
| "type_name (PList xs) = ''list''"
| "type_name (PDict kvs) = ''dict''"

definition squote :: string where
  "squote = [CHR 0x27]"

fun startswith :: "string \<Rightarrow> string \<Rightarrow> bool" where
  "startswith s [] = True"
| "startswith [] (p # ps) = False"
| "startswith (c # cs) (p # ps) = (c = p \<and> startswith cs ps)"

definition endswith :: "string \<Rightarrow> string \<Rightarrow> bool" where
  "endswith s suf = startswith (rev s) (rev suf)"

text \<open>\<^verbatim>\<open>sub in s\<close> on strings: \<open>sub\<close> occurs in \<open>s\<close> as a contiguous piece.\<close>

fun str_contains :: "string \<Rightarrow> string \<Rightarrow> bool" where
  "str_contains [] sub = (sub = [])"
| "str_contains (c # cs) sub = (startswith (c # cs) sub \<or> str_contains cs sub)"

text \<open>\<^verbatim>\<open>s.replace(old, new)\<close>: every occurrence of \<open>old\<close>, found from left to right
  without overlap, is replaced. With an empty \<open>old\<close> Python puts \<open>new\<close> before every
  character and at the end.\<close>

function replace_ne :: "string \<Rightarrow> string \<Rightarrow> string \<Rightarrow> string" where
  "replace_ne [] old new = []"
| "replace_ne (c # cs) old new =
     (if old \<noteq> [] \<and> startswith (c # cs) old
      then new @ replace_ne (drop (length old) (c # cs)) old new
      else c # replace_ne cs old new)"
  by pat_completeness auto
termination
  by (relation "measure (\<lambda>(s, old, new). length s)") auto

definition replace :: "string \<Rightarrow> string \<Rightarrow> string \<Rightarrow> string" where
  "replace s old new =
     (if old = [] then new @ concat (map (\<lambda>c. c # new) s) else replace_ne s old new)"

text \<open>\<^verbatim>\<open>field in v\<close> for a string \<open>field\<close>: key membership on a dictionary, element
  membership on a list, substring test on a string, \<^verbatim>\<open>TypeError\<close> on the rest.\<close>

fun py_in :: "string \<Rightarrow> pyval \<Rightarrow> bool result" where
  "py_in field (PDict kvs) = Ok (field \<in> set (map fst kvs))"
| "py_in field (PList xs) = Ok (PStr field \<in> set xs)"
| "py_in field (PStr s) = Ok (str_contains s field)"
| "py_in field v = Raise (Exn ''TypeError''
     (''argument of type '' @ squote @ type_name v @ squote @ '' is not iterable''))"

text \<open>\<^verbatim>\<open>v.get(key, default)\<close>: only a dictionary has the method.\<close>

fun py_get :: "pyval \<Rightarrow> string \<Rightarrow> pyval \<Rightarrow> pyval result" where
  "py_get (PDict kvs) key dflt = Ok (case map_of kvs key of None \<Rightarrow> dflt | Some v \<Rightarrow> v)"
| "py_get v key dflt = Raise (Exn ''AttributeError''
     (squote @ type_name v @ squote @ '' object has no attribute '' @ squote @ ''get'' @ squote))"

text \<open>\<^verbatim>\<open>v[key]\<close> with a string key (messages of CPython 3.11).\<close>

fun py_getitem :: "pyval \<Rightarrow> string \<Rightarrow> pyval result" where
  "py_getitem (PDict kvs) key =
     (case map_of kvs key of
        None \<Rightarrow> Raise (Exn ''KeyError'' (squote @ key @ squote))
      | Some v \<Rightarrow> Ok v)"
| "py_getitem (PList xs) key =
     Raise (Exn ''TypeError'' ''list indices must be integers or slices, not str'')"
| "py_getitem (PStr s) key =
     Raise (Exn ''TypeError'' (''string indices must be integers, not '' @ squote @ ''str'' @ squote))"
| "py_getitem v key =
     Raise (Exn ''TypeError'' (squote @ type_name v @ squote @ '' object is not subscriptable''))"

text \<open>\<^verbatim>\<open>len(v)\<close>: a string counts code points, that is the bytes that are not UTF-8
  continuation bytes; a dictionary counts its distinct keys.\<close>

definition utf8_continuation :: "char \<Rightarrow> bool" where
  "utf8_continuation c = (128 \<le> (of_char c :: nat) \<and> (of_char c :: nat) < 192)"

fun py_len :: "pyval \<Rightarrow> nat result" where
  "py_len (PStr s) = Ok (length (filter (\<lambda>c. \<not> utf8_continuation c) s))"
| "py_len (PList xs) = Ok (length xs)"
| "py_len (PDict kvs) = Ok (length (remdups (map fst kvs)))"
| "py_len v = Raise (Exn ''TypeError''
     (''object of type '' @ squote @ type_name v @ squote @ '' has no len()''))"

section \<open>handlers/ontology\_loader.py\<close>

subsection \<open>The storage client and the loader object\<close>

text \<open>
  The Google Cloud Storage client is outside the repository. The loader uses it in two
  ways: \<^verbatim>\<open>client.bucket(b).blob(n).download_as_text()\<close>, and the names of
  \<^verbatim>\<open>client.bucket(b).list_blobs()\<close>. Each either returns or raises, whatever call of
  the chain fails.
\<close>

record client =
  download_as_text :: "string \<Rightarrow> string \<Rightarrow> string result"
  list_blobs :: "string \<Rightarrow> string list result"

text \<open>An \<^verbatim>\<open>OntologyLoader\<close> object: \<open>loader_id\<close> is its identity, the other fields
  are the attributes that \<^verbatim>\<open>__init__\<close> sets (\<open>storage_client\<close> stays \<open>None\<close> when
  the client could not be created).\<close>

record loader =
  loader_id :: nat
  bucket_name :: string
  storage_client :: "client option"

datatype level = INFO | WARNING

text \<open>What persists in the serving process: the table of \<^verbatim>\<open>functools.lru_cache\<close>
  (most recently used entry first, keyed by the arguments \<^verbatim>\<open>(self, ontology_name)\<close>),
  the log records written so far, and the objects requested from the store so far
  (bucket and object name), the last two in order of time.\<close>

record proc =
  cache :: "((nat \<times> string) \<times> pyval) list"
  logs :: "(level \<times> string) list"
  fetched :: "(string \<times> string) list"

definition logging :: "level \<Rightarrow> string \<Rightarrow> proc \<Rightarrow> proc" where
  "logging lv msg st = st\<lparr>logs := logs st @ [(lv, msg)]\<rparr>"

subsection \<open>The default ontology\<close>

definition bsl :: string where "bsl = [CHR 0x5C]"
definition uLE :: string where "uLE = [CHR 0xE2, CHR 0x89, CHR 0xA4]"
definition uGE :: string where "uGE = [CHR 0xE2, CHR 0x89, CHR 0xA5]"
definition uOR :: string where "uOR = [CHR 0xE2, CHR 0x88, CHR 0xA8]"
definition uAND :: string where "uAND = [CHR 0xE2, CHR 0x88, CHR 0xA7]"
definition uNOT :: string where "uNOT = [CHR 0xC2, CHR 0xAC]"
definition uIMP :: string where "uIMP = [CHR 0xE2, CHR 0x86, CHR 0x92]"
definition uSECT :: string where "uSECT = [CHR 0xC2, CHR 0xA7]"

definition get_default_ontology :: pyval where
  "get_default_ontology =
  PDict [
      (''name'', PStr ''mortgage-compliance-v1''),
      (''version'', PStr ''1.0.0''),
      (''description'', PStr ''U.S. Mortgage Compliance - Core constraints''),
      (''constraints'', PList [
        PDict [
          (''id'', PStr ''ATR_QM_DTI''),
          (''category'', PStr ''ATR/QM''),
          (''description'', PStr ''Debt-to-income ratio requirements''),
          (''formula_readable'', PStr (''(dti '' @ uLE @ '' 43) '' @ uOR @ '' (compensating_factors '' @ uGE @ '' 2)'')),
          (''variables'', PList [
            PDict [(''name'', PStr ''dti''), (''type'', PStr ''real'')],
            PDict [(''name'', PStr ''compensating_factors''), (''type'', PStr ''int'')]]),
          (''error_message'', PStr ''DTI exceeds 43% without sufficient compensating factors''),
          (''citation'', PStr (''12 CFR '' @ uSECT @ '' 1026.43(c)''))],
        PDict [
          (''id'', PStr ''HOEPA_HIGH_COST''),
          (''category'', PStr ''HOEPA''),
          (''description'', PStr ''High-cost mortgage counseling requirement''),
          (''formula_readable'', PStr (''(fee_percentage < 8) '' @ uOR @ '' counseling_disclosed'')),
          (''variables'', PList [
            PDict [(''name'', PStr ''fee_percentage''), (''type'', PStr ''real'')],
            PDict [(''name'', PStr ''counseling_disclosed''), (''type'', PStr ''bool'')]]),
          (''error_message'', PStr ''HOEPA triggered - counseling disclosure required''),
          (''citation'', PStr (''12 CFR '' @ uSECT @ '' 1026.32''))],
        PDict [
          (''id'', PStr ''UDAAP_NO_GUARANTEES''),
          (''category'', PStr ''UDAAP''),
          (''description'', PStr ''Prohibition on guarantee language''),
          (''formula_readable'', PStr (uNOT @ ''(has_guarantee '' @ uAND @ '' has_approval)'')),
          (''variables'', PList [
            PDict [(''name'', PStr ''has_guarantee''), (''type'', PStr ''bool'')],
            PDict [(''name'', PStr ''has_approval''), (''type'', PStr ''bool'')]]),
          (''error_message'', PStr ''Cannot guarantee approval''),
          (''citation'', PStr (''12 CFR '' @ uSECT @ '' 1036.3''))],
        PDict [
          (''id'', PStr ''HPML_ESCROW''),
          (''category'', PStr ''Escrow''),
          (''description'', PStr ''Escrow requirements based on FICO''),
          (''formula_readable'', PStr (''(credit_score '' @ uGE @ '' 620) '' @ uOR @ '' '' @ uNOT @ ''escrow_waived'')),
          (''variables'', PList [
            PDict [(''name'', PStr ''credit_score''), (''type'', PStr ''int'')],
            PDict [(''name'', PStr ''escrow_waived''), (''type'', PStr ''bool'')]]),
          (''error_message'', PStr ''Cannot waive escrow with FICO < 620''),
          (''citation'', PStr (''12 CFR '' @ uSECT @ '' 1026.35(b)''))],
        PDict [
          (''id'', PStr ''REG_B_ADVERSE''),
          (''category'', PStr ''Regulation B''),
          (''description'', PStr ''Adverse action disclosure requirements''),
          (''formula_readable'', PStr (''is_denial '' @ uIMP @ '' has_specific_reason'')),
          (''variables'', PList [
            PDict [(''name'', PStr ''is_denial''), (''type'', PStr ''bool'')],
            PDict [(''name'', PStr ''has_specific_reason''), (''type'', PStr ''bool'')]]),
          (''error_message'', PStr ''Must disclose specific denial reason''),
          (''citation'', PStr (''12 CFR '' @ uSECT @ '' 1002.9''))]]),
      (''extractors'', PDict [
        (''dti'', PDict [
          (''type'', PStr ''float''),
          (''pattern'', PStr (''dti[:'' @ bsl @ ''s~]*('' @ bsl @ ''d+(?:'' @ bsl @ ''.'' @ bsl @ ''d+)?)''))]),
        (''credit_score'', PDict [
          (''type'', PStr ''int''),
          (''pattern'', PStr (''(?:fico|credit score)[:'' @ bsl @ ''s]*('' @ bsl @ ''d{3})''))]),
        (''fees'', PDict [
          (''type'', PStr ''money''),
          (''pattern'', PStr (bsl @ ''$?(['' @ bsl @ ''d,]+)k?'' @ bsl @ ''s*(?:fees?|costs?)''))]),
        (''loan_amount'', PDict [
          (''type'', PStr ''money''),
          (''pattern'', PStr (bsl @ ''$?(['' @ bsl @ ''d,]+)k?'' @ bsl @ ''s*(?:loan|mortgage)''))]),
        (''has_guarantee'', PDict [
          (''type'', PStr ''boolean''),
          (''keywords'', PList [PStr ''guaranteed'', PStr ''100%'', PStr ''definitely''])]),
        (''has_approval'', PDict [
          (''type'', PStr ''boolean''),
          (''keywords'', PList [PStr ''approved'', PStr ''approve''])]),
        (''counseling_disclosed'', PDict [(''type'', PStr ''boolean''), (''keywords'', PList [PStr ''counseling''])]),
        (''escrow_waived'', PDict [
          (''type'', PStr ''boolean''),
          (''keywords'', PList [PStr ''escrow waived'', PStr ''waive escrow'', PStr ''skip escrow''])]),
        (''is_denial'', PDict [
          (''type'', PStr ''boolean''),
          (''keywords'', PList [PStr ''denied'', PStr ''cannot approve''])]),
        (''has_specific_reason'', PDict [
          (''type'', PStr ''boolean''),
          (''keywords'', PList [PStr ''credit'', PStr ''income'', PStr ''dti'', PStr ''debt'', PStr ''score''])])])]"

subsection \<open>Loading an ontology\<close>

text \<open>\<^verbatim>\<open>json.loads\<close> belongs to the standard library: it is a parameter, a function
  from the text of a document to the value it denotes or to the exception raised for
  malformed text.\<close>

type_synonym json_loads = "string \<Rightarrow> pyval result"

definition required_fields :: "string list" where
  "required_fields = [''name'', ''version'', ''constraints'', ''extractors'']"

text \<open>The loop of \<^verbatim>\<open>_validate_ontology\<close> over the required fields.\<close>

fun check_fields :: "string list \<Rightarrow> pyval \<Rightarrow> unit result" where
  "check_fields [] ontology = Ok ()"
| "check_fields (field # rest) ontology =
     bind (py_in field ontology) (\<lambda>present.
       if \<not> present
       then Raise (Exn ''ValueError'' (''Invalid ontology: missing '' @ field))
       else check_fields rest ontology)"

definition validate_ontology :: "pyval \<Rightarrow> pyval result" where
  "validate_ontology ontology = bind (check_fields required_fields ontology) (\<lambda>_. Ok ontology)"

text \<open>The validity of a document in the words of the specification, to be compared
  with the check of the code: a document is valid only if it contains \<^verbatim>\<open>name\<close>,
  \<^verbatim>\<open>version\<close>, \<^verbatim>\<open>constraints\<close> and \<^verbatim>\<open>extractors\<close>, that is, it is an object
  with these four fields.\<close>

definition spec_valid_ontology :: "pyval \<Rightarrow> bool" where
  "spec_valid_ontology document =
     (case document of
        PDict kvs \<Rightarrow> {''name'', ''version'', ''constraints'', ''extractors''} \<subseteq> set (map fst kvs)
      | _ \<Rightarrow> False)"

text \<open>The \<^verbatim>\<open>try\<close> block of \<^verbatim>\<open>load\<close>. It returns a value (\<open>Ok (Some v)\<close>), runs to
  its end without returning because there is no client (\<open>Ok None\<close>), or raises.\<close>

definition load_try :: "json_loads \<Rightarrow> loader \<Rightarrow> string \<Rightarrow> pyval option result" where
  "load_try loads self ontology_name =
     (case storage_client self of
        None \<Rightarrow> Ok None
      | Some c \<Rightarrow>
          bind (download_as_text c (bucket_name self) (ontology_name @ ''.json'')) (\<lambda>content.
          bind (loads content) (\<lambda>ontology.
          bind (validate_ontology ontology) (\<lambda>v. Ok (Some v)))))"

definition note_fetch :: "loader \<Rightarrow> string \<Rightarrow> proc \<Rightarrow> proc" where
  "note_fetch self ontology_name st =
     (case storage_client self of
        None \<Rightarrow> st
      | Some c \<Rightarrow> st\<lparr>fetched := fetched st @ [(bucket_name self, ontology_name @ ''.json'')]\<rparr>)"

definition use_default :: "string \<Rightarrow> proc \<Rightarrow> pyval result \<times> proc" where
  "use_default ontology_name st =
     (Ok get_default_ontology, logging INFO (''Using default ontology for '' @ ontology_name) st)"

text \<open>The body of \<^verbatim>\<open>load\<close>, the function that the decorator wraps.\<close>

definition load_body :: "json_loads \<Rightarrow> loader \<Rightarrow> string \<Rightarrow> proc \<Rightarrow> pyval result \<times> proc" where
  "load_body loads self ontology_name st =
     (let st1 = note_fetch self ontology_name st in
      case load_try loads self ontology_name of
        Ok (Some ontology) \<Rightarrow> (Ok ontology, st1)
      | Ok None \<Rightarrow> use_default ontology_name st1
      | Raise e \<Rightarrow>
          if isinstance_NotFound e
          then use_default ontology_name
                 (logging INFO (''Ontology '' @ ontology_name @ '' not found in GCS'') st1)
          else use_default ontology_name
                 (logging WARNING (''Failed to load from GCS: '' @ exn_msg e) st1))"

text \<open>\<^verbatim>\<open>@lru_cache(maxsize=10)\<close>: a call whose key is in the table returns the stored
  value and makes the entry the most recent one, without running the body. Otherwise
  the body runs; an exception passes through and stores nothing; a value is stored as
  the most recent entry, in place of the oldest one when the table is full.\<close>

definition maxsize :: nat where
  "maxsize = 10"

definition lru_hit :: "'k \<Rightarrow> 'v \<Rightarrow> ('k \<times> 'v) list \<Rightarrow> ('k \<times> 'v) list" where
  "lru_hit k v tab = (k, v) # filter (\<lambda>p. fst p \<noteq> k) tab"

definition lru_miss :: "'k \<Rightarrow> 'v \<Rightarrow> ('k \<times> 'v) list \<Rightarrow> ('k \<times> 'v) list" where
  "lru_miss k v tab = (k, v) # (if maxsize \<le> length tab then butlast tab else tab)"

definition load :: "json_loads \<Rightarrow> loader \<Rightarrow> string \<Rightarrow> proc \<Rightarrow> pyval result \<times> proc" where
  "load loads self ontology_name st =
     (let key = (loader_id self, ontology_name) in
      case map_of (cache st) key of
        Some v \<Rightarrow> (Ok v, st\<lparr>cache := lru_hit key v (cache st)\<rparr>)
      | None \<Rightarrow>
          (case load_body loads self ontology_name st of
             (Raise e, st') \<Rightarrow> (Raise e, st')
           | (Ok v, st') \<Rightarrow> (Ok v, st'\<lparr>cache := lru_miss key v (cache st')\<rparr>)))"

subsection \<open>Listing the ontologies\<close>

definition list_available :: "loader \<Rightarrow> proc \<Rightarrow> string list result \<times> proc" where
  "list_available self st =
     (case storage_client self of
        None \<Rightarrow> (Ok [''mortgage-compliance-v1''], st)
      | Some c \<Rightarrow>
          (case list_blobs c (bucket_name self) of
             Ok names \<Rightarrow>
               (Ok (map (\<lambda>name. replace name ''.json'' '''')
                       (filter (\<lambda>name. endswith name ''.json'') names)), st)
           | Raise e \<Rightarrow>
               (Ok [''mortgage-compliance-v1''],
                logging WARNING (''Failed to list ontologies: '' @ exn_msg e) st)))"

section \<open>main.py\<close>

subsection \<open>Requests, responses and the collaborators\<close>

text \<open>What the handler reads of a request: the method, the headers, and the result of
  \<^verbatim>\<open>request.get_json(silent=True)\<close>, which is \<^verbatim>\<open>None\<close> when the body is absent or
  cannot be parsed and the parsed value otherwise.\<close>

record request =
  req_method :: string
  req_headers :: "string \<rightharpoonup> string"
  req_json :: pyval

text \<open>A response is the triple the handler returns. Its body is a literal text or
  \<^verbatim>\<open>json.dumps\<close> of a value, kept as that value; every \<open>pyval\<close> can be serialised,
  so \<^verbatim>\<open>json.dumps\<close> does not raise.\<close>

datatype payload = Text string | Dumps pyval

record response =
  body :: payload
  status :: nat
  headers :: "(string \<times> string) list"

text \<open>The module-level objects come from the package \<^verbatim>\<open>aare_core\<close>. Each call
  returns a value or raises. \<open>uuid4\<close> and \<open>utcnow_isoformat\<close> are the texts of
  \<^verbatim>\<open>str(uuid.uuid4())\<close> and \<^verbatim>\<open>datetime.utcnow().isoformat()\<close> at this request.\<close>

record env =
  ontology_loader_load :: "pyval \<Rightarrow> pyval result"
  llm_parser_parse :: "pyval \<Rightarrow> pyval \<Rightarrow> pyval result"
  smt_verifier_verify :: "pyval \<Rightarrow> pyval \<Rightarrow> pyval result"
  uuid4 :: string
  utcnow_isoformat :: string

subsection \<open>CORS headers\<close>

definition ALLOWED_ORIGINS :: "string list" where
  "ALLOWED_ORIGINS =
     [''https://aare.ai'', ''https://www.aare.ai'', ''http://localhost:8000'',
      ''http://localhost:3000'']"

definition get_cors_headers :: "request \<Rightarrow> (string \<times> string) list" where
  "get_cors_headers request =
     (let origin = (case req_headers request ''Origin'' of None \<Rightarrow> '''' | Some v \<Rightarrow> v);
          allowed_origin =
            (if origin \<in> set ALLOWED_ORIGINS then origin else ALLOWED_ORIGINS ! 0)
      in [(''Content-Type'', ''application/json''),
          (''Access-Control-Allow-Origin'', allowed_origin),
          (''Access-Control-Allow-Headers'', ''Content-Type,x-api-key,Authorization''),
          (''Access-Control-Allow-Methods'', ''OPTIONS,POST'')])"

subsection \<open>The handler\<close>

definition error_body :: "string \<Rightarrow> payload" where
  "error_body msg = Dumps (PDict [(''error'', PStr msg)])"

text \<open>The dictionary \<^verbatim>\<open>response_body\<close>; its entries are evaluated in the order of the
  source, so the first failing subscript decides the exception.\<close>

definition build_response :: "env \<Rightarrow> pyval \<Rightarrow> pyval \<Rightarrow> pyval \<Rightarrow> pyval result" where
  "build_response E verification_result extracted_data ontology =
     bind (py_getitem verification_result ''verified'') (\<lambda>verified.
     bind (py_getitem verification_result ''violations'') (\<lambda>violations.
     bind (py_getitem ontology ''name'') (\<lambda>name.
     bind (py_getitem ontology ''version'') (\<lambda>version.
     bind (py_getitem ontology ''constraints'') (\<lambda>constraints.
     bind (py_len constraints) (\<lambda>constraints_checked.
     bind (py_getitem verification_result ''proof'') (\<lambda>prf.
     bind (py_getitem verification_result ''execution_time_ms'') (\<lambda>execution_time_ms.
     Ok (PDict
       [(''verified'', verified),
        (''violations'', violations),
        (''parsed_data'', extracted_data),
        (''ontology'', PDict
           [(''name'', name),
            (''version'', version),
            (''constraints_checked'', PInt (int constraints_checked))]),
        (''proof'', prf),
        (''solver'', PStr ''Constraint Logic''),
        (''verification_id'', PStr (uuid4 E)),
        (''execution_time_ms'', execution_time_ms),
        (''timestamp'', PStr (utcnow_isoformat E))])))))))))"

text \<open>The steps after the two checks of the request: load, parse, verify, assemble.\<close>

definition pipeline :: "env \<Rightarrow> pyval \<Rightarrow> pyval \<Rightarrow> pyval result" where
  "pipeline E llm_output ontology_name =
     bind (ontology_loader_load E ontology_name) (\<lambda>ontology.
     bind (llm_parser_parse E llm_output ontology) (\<lambda>extracted_data.
     bind (smt_verifier_verify E extracted_data ontology) (\<lambda>verification_result.
     build_response E verification_result extracted_data ontology)))"

text \<open>The \<^verbatim>\<open>try\<close> block of \<^verbatim>\<open>verify\<close>.\<close>

definition verify_try :: "env \<Rightarrow> request \<Rightarrow> (string \<times> string) list \<Rightarrow> response result" where
  "verify_try E request cors_headers =
     (let request_json = req_json request in
      if \<not> truthy request_json
      then Ok \<lparr>body = error_body ''Invalid JSON in request body'', status = 400,
               headers = cors_headers\<rparr>
      else
        bind (py_get request_json ''llm_output'' (PStr '''')) (\<lambda>llm_output.
        bind (py_get request_json ''ontology'' (PStr ''mortgage-compliance-v1'')) (\<lambda>ontology_name.
          if \<not> truthy llm_output
          then Ok \<lparr>body = error_body ''llm_output is required'', status = 400,
                   headers = cors_headers\<rparr>
          else
            bind (pipeline E llm_output ontology_name) (\<lambda>response_body.
            Ok \<lparr>body = Dumps response_body, status = 200, headers = cors_headers\<rparr>))))"

definition verify :: "env \<Rightarrow> request \<Rightarrow> response result" where
  "verify E request =
     (let cors_headers = get_cors_headers request in
      if req_method request = ''OPTIONS''
      then Ok \<lparr>body = Text '''', status = 204, headers = cors_headers\<rparr>
      else if req_method request \<noteq> ''POST''
      then Ok \<lparr>body = error_body ''Method not allowed'', status = 405, headers = cors_headers\<rparr>
      else
        (case verify_try E request cors_headers of
           Ok r \<Rightarrow> Ok r
         | Raise e \<Rightarrow>
             Ok \<lparr>body = Dumps (PDict [(''error'', PStr (exn_msg e)), (''type'', PStr (exn_type e))]),
                 status = 500, headers = cors_headers\<rparr>))"

section \<open>Sequences of calls in one process\<close>

text \<open>A call of \<^verbatim>\<open>load\<close> names the loader object and the ontology; the behaviour of
  the store and of \<^verbatim>\<open>json.loads\<close> at the time of the call comes with it, so that the
  store may change between two calls. \<open>run\<close> performs the calls in order.\<close>

type_synonym call = "json_loads \<times> loader \<times> string"

definition call_key :: "call \<Rightarrow> nat \<times> string" where
  "call_key c = (case c of (loads, self, ontology_name) \<Rightarrow> (loader_id self, ontology_name))"

definition do_call :: "call \<Rightarrow> proc \<Rightarrow> pyval result \<times> proc" where
  "do_call c st = (case c of (loads, self, ontology_name) \<Rightarrow> load loads self ontology_name st)"

fun run :: "call list \<Rightarrow> proc \<Rightarrow> proc" where
  "run [] st = st"
| "run (c # cs) st = run cs (snd (do_call c st))"

text \<open>The keys used by a sequence of calls, each once, in the order of their last use,
  the most recently used first: the first call of the sequence is the oldest, and its
  key comes last unless a later call uses it again.\<close>

fun recency :: "'k list \<Rightarrow> 'k list" where
  "recency [] = []"
| "recency (k # ks) = recency ks @ (if k \<in> set ks then [] else [k])"

definition proc0 :: proc where
  "proc0 = \<lparr>cache = [], logs = [], fetched = []\<rparr>"

section \<open>Concrete stores, documents and requests\<close>

definition not_found :: exn where
  "not_found = Exn ''NotFound'' ''404 No such object''"

definition forbidden :: exn where
  "forbidden = Exn ''Forbidden'' ''403 Access denied''"

definition decode_error :: exn where
  "decode_error = Exn ''JSONDecodeError'' ''Expecting value: line 1 column 1 (char 0)''"

definition fields_text :: string where
  \<open>fields_text = ''["name", "version", "constraints", "extractors"]''\<close>

definition partial_text :: string where
  \<open>partial_text = ''{"name": "draft"}''\<close>

definition broken_text :: string where
  \<open>broken_text = ''not json''\<close>

text \<open>\<^verbatim>\<open>json.loads\<close> on the three texts above.\<close>

definition loads0 :: json_loads where
  "loads0 content =
     (if content = fields_text
      then Ok (PList [PStr ''name'', PStr ''version'', PStr ''constraints'', PStr ''extractors''])
      else if content = partial_text then Ok (PDict [(''name'', PStr ''draft'')])
      else Raise decode_error)"

text \<open>A bucket with six objects, one of them unreadable.\<close>

definition client0 :: client where
  "client0 =
     \<lparr>download_as_text = (\<lambda>bucket blob.
        if blob = ''fields.json'' then Ok fields_text
        else if blob = ''partial.json'' then Ok partial_text
        else if blob = ''broken.json'' then Ok broken_text
        else if blob = ''secret.json'' then Raise forbidden
        else if blob = ''archive.json.json'' then Ok broken_text
        else Raise not_found),
      list_blobs = (\<lambda>bucket.
        Ok [''fields.json'', ''partial.json'', ''notes.txt'', ''broken.json'', ''secret.json'',
            ''archive.json.json''])\<rparr>"

text \<open>A client whose every request fails.\<close>

definition client_down :: client where
  "client_down =
     \<lparr>download_as_text = (\<lambda>bucket blob. Raise forbidden),
      list_blobs = (\<lambda>bucket. Raise forbidden)\<rparr>"

definition loader0 :: loader where
  "loader0 = \<lparr>loader_id = 0, bucket_name = ''aare-ai-ontologies'', storage_client = Some client0\<rparr>"

definition loader_down :: loader where
  "loader_down =
     \<lparr>loader_id = 0, bucket_name = ''aare-ai-ontologies'', storage_client = Some client_down\<rparr>"

definition loader_none :: loader where
  "loader_none = \<lparr>loader_id = 0, bucket_name = ''aare-ai-ontologies'', storage_client = None\<rparr>"

text \<open>Ten calls for ten names on one loader, and eleven calls that use nine names.\<close>

definition ten_calls :: "call list" where
  "ten_calls =
     map (\<lambda>n. (loads0, loader0, n))
       [''a'', ''b'', ''c'', ''d'', ''e'', ''f'', ''g'', ''h'', ''i'', ''j'']"

definition calls_nine_names :: "call list" where
  "calls_nine_names =
     map (\<lambda>n. (loads0, loader0, n))
       [''a'', ''b'', ''c'', ''a'', ''d'', ''e'', ''f'', ''g'', ''h'', ''b'', ''i'']"

definition post :: "string option \<Rightarrow> pyval \<Rightarrow> request" where
  "post origin j =
     \<lparr>req_method = ''POST'',
      req_headers = (case origin of None \<Rightarrow> Map.empty | Some v \<Rightarrow> [''Origin'' \<mapsto> v]),
      req_json = j\<rparr>"

definition env_ok :: env where
  "env_ok =
     \<lparr>ontology_loader_load = (\<lambda>name. Ok get_default_ontology),
      llm_parser_parse = (\<lambda>text ontology. Ok (PDict [(''dti'', PInt 50)])),
      smt_verifier_verify = (\<lambda>extracted ontology.
        Ok (PDict [(''verified'', PBool False), (''violations'', PList [PStr ''ATR_QM_DTI'']),
                   (''proof'', PNone), (''execution_time_ms'', PInt 3)])),
      uuid4 = ''00000000-0000-4000-8000-000000000000'',
      utcnow_isoformat = ''2024-01-01T00:00:00''\<rparr>"

text \<open>A solver that fails.\<close>

definition env_solver_down :: env where
  "env_solver_down =
     env_ok\<lparr>smt_verifier_verify := (\<lambda>extracted ontology.
       Raise (Exn ''Z3Exception'' ''solver timed out''))\<rparr>"

text \<open>A parser that accepts only text.\<close>

definition env_strict :: env where
  "env_strict =
     env_ok\<lparr>llm_parser_parse := (\<lambda>text ontology.
       case text of
         PStr s \<Rightarrow> Ok (PDict [(''dti'', PInt 50)])
       | _ \<Rightarrow> Raise (Exn ''TypeError'' ''expected string or bytes-like object''))\<rparr>"

section \<open>Properties of the handler\<close>

lemma bind_eq_Ok: "bind m f = Ok y \<longleftrightarrow> (\<exists>x. m = Ok x \<and> f x = Ok y)"
  by (cases m) simp_all

lemma verify_returns: "\<exists>r. verify E request = Ok r"
  by (simp add: verify_def Let_def split: result.split)

lemma verify_try_headers: "verify_try E request cors = Ok r \<Longrightarrow> headers r = cors"
  by (auto simp: verify_try_def Let_def bind_eq_Ok split: if_splits)

lemma verify_headers: "verify E request = Ok r \<Longrightarrow> headers r = get_cors_headers request"
  by (auto simp: verify_def Let_def split: result.splits if_splits dest: verify_try_headers)

text \<open>On a POST the handler is its \<^verbatim>\<open>try\<close> block, with a raised exception turned into
  the response of the \<^verbatim>\<open>except\<close> clause.\<close>

lemma verify_post:
  "req_method request = ''POST'' \<Longrightarrow>
   verify E request =
     (case verify_try E request (get_cors_headers request) of
        Ok r \<Rightarrow> Ok r
      | Raise e \<Rightarrow>
          Ok \<lparr>body = Dumps (PDict [(''error'', PStr (exn_msg e)), (''type'', PStr (exn_type e))]),
              status = 500, headers = get_cors_headers request\<rparr>)"
  by (simp add: verify_def Let_def)

text \<open>The \<^verbatim>\<open>try\<close> block on a body that is a non-empty dictionary.\<close>

lemma verify_try_checked:
  "req_json request = PDict kvs \<Longrightarrow> kvs \<noteq> [] \<Longrightarrow>
   verify_try E request cors =
     (let llm_output = (case map_of kvs ''llm_output'' of None \<Rightarrow> PStr '''' | Some v \<Rightarrow> v);
          ontology_name =
            (case map_of kvs ''ontology'' of None \<Rightarrow> PStr ''mortgage-compliance-v1'' | Some v \<Rightarrow> v)
      in if \<not> truthy llm_output
         then Ok \<lparr>body = error_body ''llm_output is required'', status = 400, headers = cors\<rparr>
         else bind (pipeline E llm_output ontology_name) (\<lambda>response_body.
                Ok \<lparr>body = Dumps response_body, status = 200, headers = cors\<rparr>))"
  by (simp add: verify_try_def Let_def)

text \<open>
  \<^bold>\<open>C5.\<close> Every request gets a response, and its header
  \<^verbatim>\<open>Access-Control-Allow-Origin\<close> is the request's \<^verbatim>\<open>Origin\<close> when that is one of the
  four allowed origins, and \<^verbatim>\<open>https://aare.ai\<close> otherwise, also when the request has no
  \<^verbatim>\<open>Origin\<close> header. This holds for all responses: 204, 405, 400, 200 and 500.
\<close>

theorem verify_allow_origin:
  "\<exists>r. verify E request = Ok r \<and>
     map_of (headers r) ''Access-Control-Allow-Origin'' =
       Some (case req_headers request ''Origin'' of
               None \<Rightarrow> ''https://aare.ai''
             | Some origin \<Rightarrow>
                 if origin \<in> {''https://aare.ai'', ''https://www.aare.ai'',
                               ''http://localhost:8000'', ''http://localhost:3000''}
                 then origin else ''https://aare.ai'')"
proof -
  obtain r where r: "verify E request = Ok r" using verify_returns by blast
  have "headers r = get_cors_headers request" using r by (rule verify_headers)
  then show ?thesis using r
    by (auto simp: get_cors_headers_def ALLOWED_ORIGINS_def Let_def split: option.split)
qed

text \<open>An allowed origin is echoed, a foreign one is answered with the primary domain.\<close>

theorem verify_allow_origin_witness:
  "(\<exists>r. verify env_ok (post (Some ''http://localhost:3000'') PNone) = Ok r \<and>
     map_of (headers r) ''Access-Control-Allow-Origin'' = Some ''http://localhost:3000'') \<and>
   (\<exists>r. verify env_ok (post (Some ''https://evil.example'') PNone) = Ok r \<and>
     map_of (headers r) ''Access-Control-Allow-Origin'' = Some ''https://aare.ai'')"
  using verify_allow_origin [of env_ok "post (Some ''http://localhost:3000'') PNone"]
    verify_allow_origin [of env_ok "post (Some ''https://evil.example'') PNone"]
  by (simp add: post_def)

text \<open>
  \<^bold>\<open>C9.\<close> A POST whose body parses to a false value (the empty object, the empty
  array, zero, \<^verbatim>\<open>false\<close>, the empty string, and \<^verbatim>\<open>null\<close> or no parse at all) is
  answered with 400 and \<^verbatim>\<open>{"error": "Invalid JSON in request body"}\<close>; the check of
  \<^verbatim>\<open>llm_output\<close> is not reached.
\<close>

theorem verify_falsy_json:
  assumes "req_method request = ''POST''" and "\<not> truthy (req_json request)"
  shows "verify E request =
    Ok \<lparr>body = Dumps (PDict [(''error'', PStr ''Invalid JSON in request body'')]),
        status = 400, headers = get_cors_headers request\<rparr>"
  using assms by (simp add: verify_post verify_try_def error_body_def)

theorem verify_falsy_json_witness:
  "req_method (post None (PDict [])) = ''POST'' \<and> \<not> truthy (req_json (post None (PDict []))) \<and>
   verify env_ok (post None (PDict [])) =
     Ok \<lparr>body = Dumps (PDict [(''error'', PStr ''Invalid JSON in request body'')]),
         status = 400, headers = get_cors_headers (post None (PDict []))\<rparr> \<and>
   verify env_ok (post None (PList [])) =
     Ok \<lparr>body = Dumps (PDict [(''error'', PStr ''Invalid JSON in request body'')]),
         status = 400, headers = get_cors_headers (post None (PList []))\<rparr> \<and>
   verify env_ok (post None (PInt 0)) =
     Ok \<lparr>body = Dumps (PDict [(''error'', PStr ''Invalid JSON in request body'')]),
         status = 400, headers = get_cors_headers (post None (PInt 0))\<rparr> \<and>
   verify env_ok (post None (PBool False)) =
     Ok \<lparr>body = Dumps (PDict [(''error'', PStr ''Invalid JSON in request body'')]),
         status = 400, headers = get_cors_headers (post None (PBool False))\<rparr> \<and>
   verify env_ok (post None (PStr '''')) =
     Ok \<lparr>body = Dumps (PDict [(''error'', PStr ''Invalid JSON in request body'')]),
         status = 400, headers = get_cors_headers (post None (PStr ''''))\<rparr>"
  using verify_falsy_json [of "post None (PDict [])" env_ok]
    verify_falsy_json [of "post None (PList [])" env_ok]
    verify_falsy_json [of "post None (PInt 0)" env_ok]
    verify_falsy_json [of "post None (PBool False)" env_ok]
    verify_falsy_json [of "post None (PStr '''')" env_ok]
  by (simp add: post_def)

text \<open>
  \<^bold>\<open>C3\<close> as stated fails: the body \<^verbatim>\<open>{}\<close> parses as JSON and has no
  \<^verbatim>\<open>llm_output\<close>, and the answer is 400 with the message of an invalid body, not
  \<^verbatim>\<open>llm_output is required\<close>.
\<close>

theorem verify_empty_object_counterexample:
  "req_method (post None (PDict [])) = ''POST'' \<and>
   req_json (post None (PDict [])) = PDict [] \<and>
   map_of ([] :: (string \<times> pyval) list) ''llm_output'' = None \<and>
   verify env_ok (post None (PDict [])) =
     Ok \<lparr>body = Dumps (PDict [(''error'', PStr ''Invalid JSON in request body'')]),
         status = 400, headers = get_cors_headers (post None (PDict []))\<rparr> \<and>
   verify env_ok (post None (PDict [])) \<noteq>
     Ok \<lparr>body = Dumps (PDict [(''error'', PStr ''llm_output is required'')]),
         status = 400, headers = get_cors_headers (post None (PDict []))\<rparr>"
  by (simp add: post_def verify_post verify_try_def error_body_def)

text \<open>
  \<^bold>\<open>C3\<close>, amended. A POST whose body parses to a non-empty JSON object in which
  \<^verbatim>\<open>llm_output\<close> is missing or false (the empty string, and also \<^verbatim>\<open>null\<close>,
  \<^verbatim>\<open>false\<close>, zero, an empty array or object) is answered with 400 and
  \<^verbatim>\<open>{"error": "llm_output is required"}\<close>.
\<close>

theorem verify_llm_output_required:
  assumes "req_method request = ''POST''"
    and "req_json request = PDict kvs" and "kvs \<noteq> []"
    and "map_of kvs ''llm_output'' = None \<or>
         (\<exists>v. map_of kvs ''llm_output'' = Some v \<and> \<not> truthy v)"
  shows "verify E request =
    Ok \<lparr>body = Dumps (PDict [(''error'', PStr ''llm_output is required'')]),
        status = 400, headers = get_cors_headers request\<rparr>"
  using assms by (auto simp: verify_post verify_try_checked error_body_def)

text \<open>A body with only \<^verbatim>\<open>ontology\<close>, and a body with an empty \<^verbatim>\<open>llm_output\<close>.\<close>

theorem verify_llm_output_required_witness:
  "verify env_ok (post None (PDict [(''ontology'', PStr ''x'')])) =
     Ok \<lparr>body = Dumps (PDict [(''error'', PStr ''llm_output is required'')]),
         status = 400, headers = get_cors_headers (post None (PDict [(''ontology'', PStr ''x'')]))\<rparr> \<and>
   verify env_ok (post None (PDict [(''llm_output'', PStr '''')])) =
     Ok \<lparr>body = Dumps (PDict [(''error'', PStr ''llm_output is required'')]),
         status = 400, headers = get_cors_headers (post None (PDict [(''llm_output'', PStr '''')]))\<rparr>"
  using verify_llm_output_required
      [of "post None (PDict [(''ontology'', PStr ''x'')])" "[(''ontology'', PStr ''x'')]" env_ok]
    verify_llm_output_required
      [of "post None (PDict [(''llm_output'', PStr '''')])" "[(''llm_output'', PStr '''')]" env_ok]
  by (simp add: post_def)

text \<open>
  \<^bold>\<open>C10.\<close> Only the truth value of \<^verbatim>\<open>llm_output\<close> is checked. A POST whose body is
  an object with a true \<^verbatim>\<open>llm_output\<close> that is not a string is not answered with 400:
  the ontology is loaded under the requested (or default) name, the parser is called
  with that very value, and the response is the 200 or the 500 that these steps yield.
\<close>

theorem verify_llm_output_untyped:
  assumes "req_method request = ''POST''"
    and "req_json request = PDict kvs"
    and "map_of kvs ''llm_output'' = Some v"
    and "truthy v" and "\<forall>s. v \<noteq> PStr s"
  shows "\<exists>r. verify E request = Ok r \<and> status r \<noteq> 400 \<and>
    r = (case bind (ontology_loader_load E
                      (case map_of kvs ''ontology'' of
                         None \<Rightarrow> PStr ''mortgage-compliance-v1'' | Some n \<Rightarrow> n))
                (\<lambda>ontology.
              bind (llm_parser_parse E v ontology) (\<lambda>extracted_data.
              bind (smt_verifier_verify E extracted_data ontology) (\<lambda>verification_result.
              build_response E verification_result extracted_data ontology))) of
           Ok response_body \<Rightarrow>
             \<lparr>body = Dumps response_body, status = 200, headers = get_cors_headers request\<rparr>
         | Raise e \<Rightarrow>
             \<lparr>body = Dumps (PDict [(''error'', PStr (exn_msg e)), (''type'', PStr (exn_type e))]),
              status = 500, headers = get_cors_headers request\<rparr>)"
proof -
  from assms(3) have ne: "kvs \<noteq> []" by auto
  show ?thesis
    using assms(1,3,4)
    by (simp add: verify_post verify_try_checked [OF assms(2) ne] pipeline_def
        split: result.split)
qed

text \<open>The number 5 as \<^verbatim>\<open>llm_output\<close> reaches a parser that then rejects it.\<close>

theorem verify_llm_output_untyped_witness:
  "req_method (post None (PDict [(''llm_output'', PInt 5)])) = ''POST'' \<and>
   truthy (PInt 5) \<and> (\<forall>s. PInt 5 \<noteq> PStr s) \<and>
   verify env_strict (post None (PDict [(''llm_output'', PInt 5)])) =
     Ok \<lparr>body = Dumps (PDict [(''error'', PStr ''expected string or bytes-like object''),
                              (''type'', PStr ''TypeError'')]),
         status = 500,
         headers = get_cors_headers (post None (PDict [(''llm_output'', PInt 5)]))\<rparr>"
  using verify_llm_output_untyped
      [of "post None (PDict [(''llm_output'', PInt 5)])" "[(''llm_output'', PInt 5)]"
        "PInt 5" env_strict]
  by (simp add: post_def env_strict_def env_ok_def)

text \<open>
  \<^bold>\<open>C6.\<close> A POST always gets a response from the handler. An exception that leaves the
  \<^verbatim>\<open>try\<close> block becomes the 500 response that carries its message under \<^verbatim>\<open>error\<close>
  and the name of its class under \<^verbatim>\<open>type\<close>; in particular so does an exception
  raised by the loader, by the parser, by the solver, or while the response is
  assembled.
\<close>

theorem verify_exception_is_500:
  assumes "req_method request = ''POST''"
  shows "(\<exists>r. verify E request = Ok r) \<and>
    (\<forall>e. verify_try E request (get_cors_headers request) = Raise e \<longrightarrow>
       verify E request =
         Ok \<lparr>body = Dumps (PDict [(''error'', PStr (exn_msg e)), (''type'', PStr (exn_type e))]),
             status = 500, headers = get_cors_headers request\<rparr>) \<and>
    (\<forall>kvs llm_output e.
       req_json request = PDict kvs \<and> map_of kvs ''llm_output'' = Some llm_output \<and>
       truthy llm_output \<and>
       (let ontology_name = (case map_of kvs ''ontology'' of
                               None \<Rightarrow> PStr ''mortgage-compliance-v1'' | Some n \<Rightarrow> n)
        in ontology_loader_load E ontology_name = Raise e \<or>
           (\<exists>ontology. ontology_loader_load E ontology_name = Ok ontology \<and>
              (llm_parser_parse E llm_output ontology = Raise e \<or>
               (\<exists>extracted_data. llm_parser_parse E llm_output ontology = Ok extracted_data \<and>
                  (smt_verifier_verify E extracted_data ontology = Raise e \<or>
                   (\<exists>verification_result.
                      smt_verifier_verify E extracted_data ontology = Ok verification_result \<and>
                      build_response E verification_result extracted_data ontology = Raise e))))))
       \<longrightarrow>
       verify E request =
         Ok \<lparr>body = Dumps (PDict [(''error'', PStr (exn_msg e)), (''type'', PStr (exn_type e))]),
             status = 500, headers = get_cors_headers request\<rparr>)"
proof (intro conjI allI impI)
  show "\<exists>r. verify E request = Ok r" by (rule verify_returns)
next
  fix e assume "verify_try E request (get_cors_headers request) = Raise e"
  then show "verify E request =
         Ok \<lparr>body = Dumps (PDict [(''error'', PStr (exn_msg e)), (''type'', PStr (exn_type e))]),
             status = 500, headers = get_cors_headers request\<rparr>"
    using assms by (simp add: verify_post)
next
  fix kvs llm_output e
  assume h: "req_json request = PDict kvs \<and> map_of kvs ''llm_output'' = Some llm_output \<and>
       truthy llm_output \<and>
       (let ontology_name = (case map_of kvs ''ontology'' of
                               None \<Rightarrow> PStr ''mortgage-compliance-v1'' | Some n \<Rightarrow> n)
        in ontology_loader_load E ontology_name = Raise e \<or>
           (\<exists>ontology. ontology_loader_load E ontology_name = Ok ontology \<and>
              (llm_parser_parse E llm_output ontology = Raise e \<or>
               (\<exists>extracted_data. llm_parser_parse E llm_output ontology = Ok extracted_data \<and>
                  (smt_verifier_verify E extracted_data ontology = Raise e \<or>
                   (\<exists>verification_result.
                      smt_verifier_verify E extracted_data ontology = Ok verification_result \<and>
                      build_response E verification_result extracted_data ontology = Raise e))))))"
  then have json: "req_json request = PDict kvs" and ne: "kvs \<noteq> []"
    and out: "map_of kvs ''llm_output'' = Some llm_output" "truthy llm_output" by auto
  from h have "pipeline E llm_output (case map_of kvs ''ontology'' of
                               None \<Rightarrow> PStr ''mortgage-compliance-v1'' | Some n \<Rightarrow> n) = Raise e"
    unfolding pipeline_def Let_def by (elim conjE disjE exE) simp_all
  then have "verify_try E request (get_cors_headers request) = Raise e"
    using out by (simp add: verify_try_checked [OF json ne])
  then show "verify E request =
         Ok \<lparr>body = Dumps (PDict [(''error'', PStr (exn_msg e)), (''type'', PStr (exn_type e))]),
             status = 500, headers = get_cors_headers request\<rparr>"
    using assms by (simp add: verify_post)
qed

text \<open>The solver raises after the ontology was loaded and the text parsed.\<close>

theorem verify_exception_is_500_witness:
  "req_method (post None (PDict [(''llm_output'', PStr ''DTI: 50%'')])) = ''POST'' \<and>
   smt_verifier_verify env_solver_down (PDict [(''dti'', PInt 50)]) get_default_ontology =
     Raise (Exn ''Z3Exception'' ''solver timed out'') \<and>
   verify env_solver_down (post None (PDict [(''llm_output'', PStr ''DTI: 50%'')])) =
     Ok \<lparr>body = Dumps (PDict [(''error'', PStr ''solver timed out''),
                              (''type'', PStr ''Z3Exception'')]),
         status = 500,
         headers = get_cors_headers (post None (PDict [(''llm_output'', PStr ''DTI: 50%'')]))\<rparr>"
proof -
  let ?request = "post None (PDict [(''llm_output'', PStr ''DTI: 50%'')])"
  have m: "req_method ?request = ''POST''" by (simp add: post_def)
  have s: "smt_verifier_verify env_solver_down (PDict [(''dti'', PInt 50)]) get_default_ontology =
     Raise (Exn ''Z3Exception'' ''solver timed out'')"
    by (simp add: env_solver_down_def)
  have "verify env_solver_down ?request =
     Ok \<lparr>body = Dumps (PDict [(''error'', PStr (exn_msg (Exn ''Z3Exception'' ''solver timed out''))),
            (''type'', PStr (exn_type (Exn ''Z3Exception'' ''solver timed out'')))]),
         status = 500, headers = get_cors_headers ?request\<rparr>"
    by (rule verify_exception_is_500 [OF m, of env_solver_down, THEN conjunct2, THEN conjunct2,
          rule_format, of "[(''llm_output'', PStr ''DTI: 50%'')]" "PStr ''DTI: 50%''"])
      (simp add: post_def env_solver_down_def env_ok_def)
  with m s show ?thesis by simp
qed

section \<open>Properties of the loader\<close>

lemma load_body_cases:
  "fst (load_body loads self n st) =
     (case load_try loads self n of Ok (Some v) \<Rightarrow> Ok v | _ \<Rightarrow> Ok get_default_ontology)"
  by (simp add: load_body_def Let_def use_default_def split: result.split option.split)

lemma load_body_cache: "cache (snd (load_body loads self n st)) = cache st"
  by (simp add: load_body_def Let_def use_default_def logging_def note_fetch_def
      split: result.split option.split)

lemma load_body_returns: "\<exists>v. fst (load_body loads self n st) = Ok v"
  by (simp add: load_body_cases split: result.split option.split)

lemma load_returns: "\<exists>v. fst (load loads self n st) = Ok v"
proof (cases "map_of (cache st) (loader_id self, n)")
  case None
  obtain v where "fst (load_body loads self n st) = Ok v" using load_body_returns by blast
  then show ?thesis using None
    by (cases "load_body loads self n st") (simp add: load_def)
next
  case (Some v)
  then show ?thesis by (simp add: load_def)
qed

lemma load_miss:
  "map_of (cache st) (loader_id self, n) = None \<Longrightarrow>
   fst (load loads self n st) = fst (load_body loads self n st)"
  by (cases "load_body loads self n st") (auto simp: load_def split: result.split)

lemma default_name: "py_getitem get_default_ontology ''name'' = Ok (PStr ''mortgage-compliance-v1'')"
  by (simp add: get_default_ontology_def)

lemma default_constraints:
  "\<exists>cs. py_getitem get_default_ontology ''constraints'' = Ok (PList cs) \<and> length cs = 5"
  by (simp add: get_default_ontology_def)

lemma default_extractors:
  "\<exists>es. py_getitem get_default_ontology ''extractors'' = Ok (PDict es) \<and>
     length es = 10 \<and> distinct (map fst es)"
  by (simp add: get_default_ontology_def)

text \<open>What \<^verbatim>\<open>_validate_ontology\<close> guarantees: the test \<^verbatim>\<open>field in ontology\<close> holds
  for the four fields. On a dictionary that means the four keys are there.\<close>

lemma check_fields_Ok:
  "check_fields fs v = Ok u \<longleftrightarrow> (\<forall>f \<in> set fs. py_in f v = Ok True)"
proof (induction fs)
  case Nil
  then show ?case by simp
next
  case (Cons f fs)
  then show ?case by (cases "py_in f v") auto
qed

lemma validate_ontology_Ok:
  "validate_ontology v = Ok w \<longleftrightarrow> w = v \<and> (\<forall>f \<in> set required_fields. py_in f v = Ok True)"
  by (auto simp: validate_ontology_def bind_eq_Ok check_fields_Ok)

lemma default_fields: "\<forall>f \<in> set required_fields. py_in f get_default_ontology = Ok True"
  by (simp add: required_fields_def get_default_ontology_def)

lemma load_body_passes:
  assumes "fst (load_body loads self n st) = Ok v"
  shows "\<forall>f \<in> set required_fields. py_in f v = Ok True"
proof (cases "load_try loads self n")
  case (Ok r)
  show ?thesis
  proof (cases r)
    case None
    then show ?thesis using assms Ok default_fields by (simp add: load_body_cases)
  next
    case (Some w)
    then have "w = v" using assms Ok by (simp add: load_body_cases)
    moreover have "\<exists>d. validate_ontology d = Ok w"
      using Ok Some by (auto simp: load_try_def bind_eq_Ok split: option.splits)
    ultimately show ?thesis by (auto simp: validate_ontology_Ok)
  qed
next
  case (Raise e)
  then show ?thesis using assms default_fields by (simp add: load_body_cases)
qed

lemma load_body_object_fields:
  assumes "fst (load_body loads self n st) = Ok (PDict kvs)"
  shows "\<forall>f \<in> {''name'', ''version'', ''constraints'', ''extractors''}. \<exists>x. map_of kvs f = Some x"
proof -
  have "\<exists>x. map_of kvs f = Some x" if "f \<in> set required_fields" for f
  proof -
    have "py_in f (PDict kvs) = Ok True" using load_body_passes [OF assms] that by blast
    then have "f \<in> fst ` set kvs" by simp
    then show ?thesis by (cases "map_of kvs f") (simp_all add: map_of_eq_None_iff)
  qed
  then show ?thesis by (simp add: required_fields_def)
qed

text \<open>On an object the check of the code is the validity of the specification.\<close>

lemma validate_object:
  "validate_ontology (PDict kvs) = Ok w \<longleftrightarrow> w = PDict kvs \<and> spec_valid_ontology (PDict kvs)"
  by (auto simp: validate_ontology_Ok spec_valid_ontology_def required_fields_def)

lemma validate_invalid_object:
  assumes "\<not> spec_valid_ontology (PDict kvs)"
  shows "\<exists>e. validate_ontology (PDict kvs) = Raise e"
  using assms validate_object [of kvs] by (cases "validate_ontology (PDict kvs)") auto

text \<open>What the \<^verbatim>\<open>except\<close> clauses of \<^verbatim>\<open>load\<close> give. When there is a client and the
  object is not found, or the download fails in another way, or the text is not JSON,
  or \<^verbatim>\<open>_validate_ontology\<close> raises, the body of \<^verbatim>\<open>load\<close> returns the default
  ontology, and so does \<^verbatim>\<open>load\<close> whenever the call is not answered from the cache
  (only then is anything fetched). The default ontology has the name
  \<^verbatim>\<open>mortgage-compliance-v1\<close>, five constraints and ten extractors.\<close>

lemma load_raise_is_default:
  assumes client: "storage_client self = Some c"
    and fail:
      "(\<exists>e. download_as_text c (bucket_name self) (name @ ''.json'') = Raise e \<and>
            isinstance_NotFound e) \<or>
       (\<exists>e. download_as_text c (bucket_name self) (name @ ''.json'') = Raise e \<and>
            \<not> isinstance_NotFound e) \<or>
       (\<exists>content e. download_as_text c (bucket_name self) (name @ ''.json'') = Ok content \<and>
            loads content = Raise e) \<or>
       (\<exists>content document e.
            download_as_text c (bucket_name self) (name @ ''.json'') = Ok content \<and>
            loads content = Ok document \<and> validate_ontology document = Raise e)"
  shows "fst (load_body loads self name st) = Ok get_default_ontology \<and>
    (map_of (cache st) (loader_id self, name) = None \<longrightarrow>
       fst (load loads self name st) = Ok get_default_ontology) \<and>
    py_getitem get_default_ontology ''name'' = Ok (PStr ''mortgage-compliance-v1'') \<and>
    (\<exists>cs. py_getitem get_default_ontology ''constraints'' = Ok (PList cs) \<and> length cs = 5) \<and>
    (\<exists>es. py_getitem get_default_ontology ''extractors'' = Ok (PDict es) \<and>
          length es = 10 \<and> distinct (map fst es))"
proof -
  from fail have "\<exists>e. load_try loads self name = Raise e"
    unfolding load_try_def client by (elim disjE exE conjE) simp_all
  then have "fst (load_body loads self name st) = Ok get_default_ontology"
    by (auto simp: load_body_cases)
  then show ?thesis
    using default_name default_constraints default_extractors by (simp add: load_miss)
qed

text \<open>The four failures on the bucket of \<open>client0\<close>: no such object, access denied,
  text that is not JSON, a document without \<^verbatim>\<open>version\<close>.\<close>

lemma load_raise_is_default_examples:
  "fst (load loads0 loader0 ''missing'' proc0) = Ok get_default_ontology \<and>
   fst (load loads0 loader0 ''secret'' proc0) = Ok get_default_ontology \<and>
   fst (load loads0 loader0 ''broken'' proc0) = Ok get_default_ontology \<and>
   fst (load loads0 loader0 ''partial'' proc0) = Ok get_default_ontology"
proof -
  have c: "storage_client loader0 = Some client0" by (simp add: loader0_def)
  have m: "map_of (cache proc0) (loader_id loader0, n) = None" for n
    by (simp add: proc0_def)
  have "isinstance_NotFound not_found" "\<not> isinstance_NotFound forbidden"
    by (simp_all add: isinstance_NotFound_def not_found_def forbidden_def)
  then have 1: "fst (load loads0 loader0 ''missing'' proc0) = Ok get_default_ontology"
    and 2: "fst (load loads0 loader0 ''secret'' proc0) = Ok get_default_ontology"
    using load_raise_is_default [OF c, of "''missing''" loads0 proc0]
      load_raise_is_default [OF c, of "''secret''" loads0 proc0] m
    by (simp_all add: client0_def)
  have 3: "fst (load loads0 loader0 ''broken'' proc0) = Ok get_default_ontology"
    using load_raise_is_default [OF c, of "''broken''" loads0 proc0] m
    by (simp add: client0_def loads0_def broken_text_def fields_text_def partial_text_def)
  have "validate_ontology (PDict [(''name'', PStr ''draft'')]) =
      Raise (Exn ''ValueError'' ''Invalid ontology: missing version'')"
    by (simp add: validate_ontology_def required_fields_def)
  then have 4: "fst (load loads0 loader0 ''partial'' proc0) = Ok get_default_ontology"
    using load_raise_is_default [OF c, of "''partial''" loads0 proc0] m
    by (simp add: client0_def loads0_def fields_text_def partial_text_def)
  from 1 2 3 4 show ?thesis by simp
qed

text \<open>An object that lacks one of the four fields is replaced by the default ontology.\<close>

lemma load_invalid_object_is_default:
  assumes "storage_client self = Some c"
    and "download_as_text c (bucket_name self) (name @ ''.json'') = Ok content"
    and "loads content = Ok (PDict kvs)"
    and "\<not> spec_valid_ontology (PDict kvs)"
  shows "fst (load_body loads self name st) = Ok get_default_ontology"
proof -
  obtain e where "validate_ontology (PDict kvs) = Raise e"
    using validate_invalid_object [OF assms(4)] by blast
  then show ?thesis
    using load_raise_is_default [OF assms(1), of name loads st] assms(2,3) by blast
qed

text \<open>
  \<^bold>\<open>C2\<close> fails on the code, by the defect of C1. The three failures of the fetch
  give the default ontology, and so does an object without one of the four fields.
  But a fetched document that is not an object fails validation as the specification
  defines it, and \<^verbatim>\<open>_validate_ontology\<close> can let it through: the array of the four
  field names is not a valid document, the call is not answered from the cache, and
  \<^verbatim>\<open>load\<close> returns the array, not the default ontology.
\<close>

theorem load_invalid_document_not_default:
  "storage_client loader0 = Some client0 \<and>
   download_as_text client0 (bucket_name loader0) (''fields'' @ ''.json'') = Ok fields_text \<and>
   loads0 fields_text =
     Ok (PList [PStr ''name'', PStr ''version'', PStr ''constraints'', PStr ''extractors'']) \<and>
   \<not> spec_valid_ontology
       (PList [PStr ''name'', PStr ''version'', PStr ''constraints'', PStr ''extractors'']) \<and>
   map_of (cache proc0) (loader_id loader0, ''fields'') = None \<and>
   fst (load loads0 loader0 ''fields'' proc0) =
     Ok (PList [PStr ''name'', PStr ''version'', PStr ''constraints'', PStr ''extractors'']) \<and>
   fst (load loads0 loader0 ''fields'' proc0) \<noteq> Ok get_default_ontology"
  by (simp add: load_def proc0_def load_body_def load_try_def loader0_def client0_def
      loads0_def validate_ontology_def required_fields_def note_fetch_def fields_text_def
      partial_text_def spec_valid_ontology_def get_default_ontology_def Let_def)

text \<open>
  \<^bold>\<open>C7.\<close> \<^verbatim>\<open>list_available\<close> always returns a list. Without a client, and when
  the listing raises, the list is exactly \<^verbatim>\<open>["mortgage-compliance-v1"]\<close>.
\<close>

theorem list_available_fallback:
  "(\<exists>names. fst (list_available self st) = Ok names) \<and>
   (storage_client self = None \<longrightarrow>
      fst (list_available self st) = Ok [''mortgage-compliance-v1'']) \<and>
   (\<forall>c e. storage_client self = Some c \<and> list_blobs c (bucket_name self) = Raise e \<longrightarrow>
      fst (list_available self st) = Ok [''mortgage-compliance-v1''])"
  by (auto simp: list_available_def split: option.split result.split)

theorem list_available_fallback_witness:
  "storage_client loader_none = None \<and>
   fst (list_available loader_none proc0) = Ok [''mortgage-compliance-v1''] \<and>
   storage_client loader_down = Some client_down \<and>
   list_blobs client_down (bucket_name loader_down) = Raise forbidden \<and>
   fst (list_available loader_down proc0) = Ok [''mortgage-compliance-v1'']"
  using list_available_fallback [of loader_none proc0]
    list_available_fallback [of loader_down proc0]
  by (simp add: loader_none_def loader_down_def client_down_def)

text \<open>Where \<^verbatim>\<open>.json\<close> occurs in a name only at its end, \<^verbatim>\<open>replace\<close> strips
  exactly the suffix.\<close>

lemma startswith_append1:
  "length p \<le> length xs \<Longrightarrow> startswith (xs @ ys) p = startswith xs p"
  by (induction xs p rule: startswith.induct) auto

lemma startswith_self [simp]: "startswith s s"
  by (induction s) auto

lemma startswith_prefix_self [simp]: "startswith (s @ t) s"
  by (induction s) auto

lemma replace_ne_suffix:
  assumes "old \<noteq> []" and "\<not> str_contains (stem @ butlast old) old"
  shows "replace_ne (stem @ old) old new = stem @ new"
  using assms(2)
proof (induction stem)
  case Nil
  obtain c cs where old: "old = c # cs" using assms(1) by (cases old) auto
  have "replace_ne (c # cs) (c # cs) new =
      new @ replace_ne (drop (length (c # cs)) (c # cs)) (c # cs) new"
    by (subst replace_ne.simps) simp
  then show ?case by (simp add: old)
next
  case (Cons a stem)
  have len: "length old \<le> length (a # stem @ butlast old)" using assms(1) by simp
  from Cons.prems have no: "\<not> startswith (a # stem @ butlast old) old"
    and rest: "\<not> str_contains (stem @ butlast old) old" by simp_all
  have "a # stem @ old = (a # stem @ butlast old) @ [last old]"
    using assms(1) by simp
  then have "startswith (a # stem @ old) old = startswith (a # stem @ butlast old) old"
    using startswith_append1 [OF len, of "[last old]"] by simp
  then have "\<not> startswith (a # stem @ old) old" using no by simp
  then have "replace_ne ((a # stem) @ old) old new = a # replace_ne (stem @ old) old new"
    by (subst append_Cons, subst replace_ne.simps) simp
  then show ?case using Cons.IH [OF rest] by simp
qed

lemma endswith_append:
  "endswith name suf \<Longrightarrow> \<exists>stem. name = stem @ suf"
proof -
  have "startswith s p \<Longrightarrow> \<exists>t. s = p @ t" for s p :: string
    by (induction s p rule: startswith.induct) auto
  moreover assume "endswith name suf"
  ultimately obtain t where "rev name = rev suf @ t" unfolding endswith_def by blast
  then have "name = rev t @ suf" by (metis rev_append rev_rev_ident)
  then show ?thesis by blast
qed

lemma replace_json_suffix:
  assumes "endswith name ''.json''" and "\<not> str_contains (butlast name) ''.json''"
  shows "replace name ''.json'' '''' = take (length name - 5) name"
proof -
  obtain stem where name: "name = stem @ ''.json''" using assms(1) endswith_append by blast
  then have "butlast name = stem @ butlast ''.json''" by (simp add: butlast_append)
  then have "replace_ne (stem @ ''.json'') ''.json'' '''' = stem @ ''''"
    using assms(2) by (intro replace_ne_suffix) simp_all
  then show ?thesis by (simp add: replace_def name)
qed

text \<open>
  \<^bold>\<open>C8\<close> fails on the code. The names that end in \<^verbatim>\<open>.json\<close> are the ones listed,
  but \<^verbatim>\<open>replace\<close> removes every \<^verbatim>\<open>.json\<close> of a name, not only the one at its end:
  the object \<^verbatim>\<open>archive.json.json\<close> is listed as \<^verbatim>\<open>archive\<close>, where the suffix
  stripped once gives \<^verbatim>\<open>archive.json\<close>.
\<close>

theorem list_available_inner_suffix:
  "storage_client loader0 = Some client0 \<and>
   list_blobs client0 (bucket_name loader0) =
     Ok [''fields.json'', ''partial.json'', ''notes.txt'', ''broken.json'', ''secret.json'',
         ''archive.json.json''] \<and>
   fst (list_available loader0 proc0) =
     Ok [''fields'', ''partial'', ''broken'', ''secret'', ''archive'']"
  by (simp add: list_available_def loader0_def client0_def endswith_def replace_def)

text \<open>
  \<^bold>\<open>C1\<close> fails on the code. \<^verbatim>\<open>load\<close> never raises (\<open>load_returns\<close>), and a
  dictionary it returns has the four fields (\<open>load_body_object_fields\<close>). But
  \<^verbatim>\<open>_validate_ontology\<close> tests \<^verbatim>\<open>field in ontology\<close> on whatever \<^verbatim>\<open>json.loads\<close>
  returned, dictionary or not. The array of the four field names passes the test and is
  returned as the ontology: it has no field at all, and \<^verbatim>\<open>ontology["name"]\<close> raises on
  it.
\<close>

theorem load_returns_array:
  "download_as_text client0 (bucket_name loader0) ''fields.json'' = Ok fields_text \<and>
   fst (load loads0 loader0 ''fields'' proc0) =
     Ok (PList [PStr ''name'', PStr ''version'', PStr ''constraints'', PStr ''extractors'']) \<and>
   py_getitem (PList [PStr ''name'', PStr ''version'', PStr ''constraints'', PStr ''extractors''])
       ''name'' =
     Raise (Exn ''TypeError'' ''list indices must be integers or slices, not str'')"
  by (simp add: load_def proc0_def load_body_def load_try_def loader0_def client0_def
      loads0_def validate_ontology_def required_fields_def note_fetch_def fields_text_def
      partial_text_def Let_def)

subsection \<open>The cache\<close>

lemma set_recency [simp]: "set (recency ks) = set ks"
  by (induction ks) auto

lemma distinct_recency [simp]: "distinct (recency ks)"
  by (induction ks) auto

lemma length_recency: "length (recency ks) = card (set ks)"
  by (metis distinct_card distinct_recency set_recency)

lemma recency_append:
  "recency (xs @ ys) = recency ys @ filter (\<lambda>x. x \<notin> set ys) (recency xs)"
  by (induction xs) auto

lemma recency_snoc: "recency (ks @ [k]) = k # filter (\<lambda>x. x \<noteq> k) (recency ks)"
  by (simp add: recency_append)

lemma recent_in_take:
  assumes "card (set ys) \<le> n"
  shows "set ys \<subseteq> set (take n (recency (xs @ ys)))"
proof -
  have "length (recency ys) \<le> n" using assms by (simp add: length_recency)
  then have "take n (recency (xs @ ys)) =
      recency ys @ take (n - length (recency ys)) (filter (\<lambda>x. x \<notin> set ys) (recency xs))"
    by (simp add: recency_append)
  then show ?thesis by simp
qed

lemma filter_take_mem:
  "distinct S \<Longrightarrow> k \<in> set (take n S) \<Longrightarrow>
   filter (\<lambda>x. x \<noteq> k) (take n S) = take (n - 1) (filter (\<lambda>x. x \<noteq> k) S)"
proof (induction S arbitrary: n)
  case Nil
  then show ?case by simp
next
  case (Cons a S)
  then obtain m where n: "n = Suc m" by (cases n) auto
  show ?case
  proof (cases "a = k")
    case True
    then have "k \<notin> set S" using Cons.prems by simp
    then have "filter (\<lambda>x. x \<noteq> k) S = S" "filter (\<lambda>x. x \<noteq> k) (take m S) = take m S"
      by (auto simp: filter_id_conv dest: in_set_takeD)
    then show ?thesis using True n by simp
  next
    case False
    then have "k \<in> set (take m S)" using Cons.prems n by simp
    then have "filter (\<lambda>x. x \<noteq> k) (take m S) = take (m - 1) (filter (\<lambda>x. x \<noteq> k) S)"
      using Cons.IH Cons.prems by simp
    moreover have "0 < m" using \<open>k \<in> set (take m S)\<close> by (cases m) auto
    ultimately show ?thesis using False n by (cases m) auto
  qed
qed

lemma take_filter_notin:
  "k \<notin> set (take n S) \<Longrightarrow> take n (filter (\<lambda>x. x \<noteq> k) S) = take n S"
proof (induction S arbitrary: n)
  case Nil
  then show ?case by simp
next
  case (Cons a S)
  then show ?case by (cases n) auto
qed

lemma map_fst_lru_hit:
  "map fst (lru_hit k v tab) = k # filter (\<lambda>x. x \<noteq> k) (map fst tab)"
  by (simp add: lru_hit_def filter_map comp_def)

lemma map_fst_lru_miss:
  "map fst (lru_miss k v tab) =
     k # (if maxsize \<le> length tab then butlast (map fst tab) else map fst tab)"
  by (simp add: lru_miss_def map_butlast)

lemma lru_hit_keys:
  assumes inv: "map fst tab = take maxsize (recency ks)" and hit: "k \<in> set (map fst tab)"
  shows "map fst (lru_hit k v tab) = take maxsize (recency (ks @ [k]))"
proof -
  have "filter (\<lambda>x. x \<noteq> k) (take maxsize (recency ks)) =
      take (maxsize - 1) (filter (\<lambda>x. x \<noteq> k) (recency ks))"
    using hit inv by (intro filter_take_mem) simp_all
  moreover have "maxsize \<noteq> 0" by (simp add: maxsize_def)
  ultimately show ?thesis
    by (simp add: map_fst_lru_hit inv recency_snoc take_Cons')
qed

lemma lru_miss_keys:
  assumes inv: "map fst tab = take maxsize (recency ks)" and miss: "k \<notin> set (map fst tab)"
  shows "map fst (lru_miss k v tab) = take maxsize (recency (ks @ [k]))"
proof -
  let ?S = "recency ks"
  have len: "length tab = min (length ?S) maxsize"
    using inv by (metis length_map length_take)
  have nin: "k \<notin> set (take maxsize ?S)" using miss inv by simp
  have goal: "(if maxsize \<le> length tab then butlast (take maxsize ?S) else take maxsize ?S) =
      take (maxsize - 1) (filter (\<lambda>x. x \<noteq> k) ?S)"
  proof (cases "maxsize \<le> length tab")
    case True
    then have "maxsize \<le> length ?S" using len by simp
    then have "butlast (take maxsize ?S) = take (maxsize - 1) ?S"
      by (simp add: butlast_take)
    also have "\<dots> = take (maxsize - 1) (take maxsize ?S)" by (simp add: min_def)
    also have "\<dots> = take (maxsize - 1) (take maxsize (filter (\<lambda>x. x \<noteq> k) ?S))"
      using take_filter_notin [OF nin] by simp
    also have "\<dots> = take (maxsize - 1) (filter (\<lambda>x. x \<noteq> k) ?S)" by (simp add: min_def)
    finally show ?thesis using True by simp
  next
    case False
    then have short: "length ?S < maxsize" using len by (simp add: min_def split: if_splits)
    then have "take maxsize ?S = ?S" by simp
    moreover from this nin have "filter (\<lambda>x. x \<noteq> k) ?S = ?S" by (auto simp: filter_id_conv)
    moreover have "take (maxsize - 1) ?S = ?S" using short by simp
    ultimately show ?thesis using False by simp
  qed
  have "maxsize \<noteq> 0" by (simp add: maxsize_def)
  with goal show ?thesis
    by (simp add: map_fst_lru_miss inv recency_snoc take_Cons' split: if_splits)
qed

lemma load_body_Ok:
  "\<exists>v st'. load_body loads self n st = (Ok v, st') \<and> cache st' = cache st"
proof -
  obtain v where "fst (load_body loads self n st) = Ok v" using load_body_returns by blast
  then have "load_body loads self n st = (Ok v, snd (load_body loads self n st))"
    by (metis prod.collapse)
  then show ?thesis using load_body_cache by blast
qed

lemma do_call_hit:
  "map_of (cache st) (call_key c) = Some v \<Longrightarrow>
   do_call c st = (Ok v, st\<lparr>cache := lru_hit (call_key c) v (cache st)\<rparr>)"
  by (cases c) (simp add: do_call_def call_key_def load_def)

lemma do_call_miss:
  assumes "map_of (cache st) (call_key c) = None"
  shows "\<exists>v st'. cache st' = cache st \<and>
    do_call c st = (Ok v, st'\<lparr>cache := lru_miss (call_key c) v (cache st)\<rparr>)"
proof -
  obtain loads self n where c: "c = (loads, self, n)" by (cases c) auto
  obtain v st' where b: "load_body loads self n st = (Ok v, st')" "cache st' = cache st"
    using load_body_Ok by blast
  have "do_call c st = (Ok v, st'\<lparr>cache := lru_miss (call_key c) v (cache st)\<rparr>)"
    using assms b by (simp add: c do_call_def call_key_def load_def)
  then show ?thesis using b(2) by blast
qed

lemma do_call_keys:
  assumes "map fst (cache st) = take maxsize (recency ks)"
  shows "map fst (cache (snd (do_call c st))) = take maxsize (recency (ks @ [call_key c]))"
proof (cases "map_of (cache st) (call_key c)")
  case None
  then have "call_key c \<notin> set (map fst (cache st))" by (simp add: map_of_eq_None_iff)
  moreover obtain v st' where "cache st' = cache st"
    "do_call c st = (Ok v, st'\<lparr>cache := lru_miss (call_key c) v (cache st)\<rparr>)"
    using do_call_miss [OF None] by blast
  ultimately show ?thesis using lru_miss_keys [OF assms] by simp
next
  case (Some v)
  then have "call_key c \<in> set (map fst (cache st))"
    by (metis map_of_eq_None_iff option.distinct(1) set_map)
  then show ?thesis using lru_hit_keys [OF assms] do_call_hit [OF Some] by simp
qed

lemma run_append: "run (cs @ ds) st = run ds (run cs st)"
  by (induction cs arbitrary: st) simp_all

lemma run_keys:
  "map fst (cache st) = take maxsize (recency ks) \<Longrightarrow>
   map fst (cache (run cs st)) = take maxsize (recency (ks @ map call_key cs))"
proof (induction cs arbitrary: st ks)
  case Nil
  then show ?case by simp
next
  case (Cons c cs)
  from do_call_keys [OF Cons.prems]
  have "map fst (cache (run cs (snd (do_call c st)))) =
      take maxsize (recency ((ks @ [call_key c]) @ map call_key cs))"
    by (rule Cons.IH)
  then show ?case by simp
qed

lemma run_keys0: "map fst (cache (run cs proc0)) = take maxsize (recency (map call_key cs))"
  using run_keys [of proc0 "[]" cs] by (simp add: proc0_def)

lemma do_call_stored:
  "fst (do_call c st) = Ok v \<Longrightarrow> map_of (cache (snd (do_call c st))) (call_key c) = Some v"
proof (cases "map_of (cache st) (call_key c)")
  case None
  assume "fst (do_call c st) = Ok v"
  then show ?thesis using do_call_miss [OF None] by (auto simp: lru_miss_def)
next
  case (Some w)
  assume "fst (do_call c st) = Ok v"
  then show ?thesis using do_call_hit [OF Some] by (auto simp: lru_hit_def)
qed

lemma map_of_filter_other:
  "k \<noteq> k' \<Longrightarrow> map_of (filter (\<lambda>p. fst p \<noteq> k') tab) k = map_of tab k"
  by (induction tab) auto

lemma map_of_butlast:
  "map_of (butlast tab) k = Some w \<Longrightarrow> map_of tab k = Some w"
  by (induction tab) (auto split: if_splits)

lemma do_call_keeps:
  assumes old: "map_of (cache st) k = Some v"
    and still: "k \<in> set (map fst (cache (snd (do_call c st))))"
  shows "map_of (cache (snd (do_call c st))) k = Some v"
proof (cases "map_of (cache st) (call_key c)")
  case (Some w)
  show ?thesis
  proof (cases "k = call_key c")
    case True
    then show ?thesis using old Some do_call_hit [OF Some] by (simp add: lru_hit_def)
  next
    case False
    then show ?thesis using old do_call_hit [OF Some]
      by (simp add: lru_hit_def map_of_filter_other)
  qed
next
  case None
  then have ne: "k \<noteq> call_key c" using old by auto
  obtain w st' where st': "cache st' = cache st"
    "do_call c st = (Ok w, st'\<lparr>cache := lru_miss (call_key c) w (cache st)\<rparr>)"
    using do_call_miss [OF None] by blast
  show ?thesis
  proof (cases "maxsize \<le> length (cache st)")
    case True
    then have "k \<in> set (map fst (butlast (cache st)))"
      using still st' ne by (simp add: lru_miss_def)
    then obtain u where u: "map_of (butlast (cache st)) k = Some u"
      by (metis map_of_eq_None_iff not_Some_eq set_map)
    then have "u = v" using map_of_butlast old by fastforce
    then show ?thesis using u st' ne True by (simp add: lru_miss_def)
  next
    case False
    then show ?thesis using st' ne old by (simp add: lru_miss_def)
  qed
qed

lemma run_keeps:
  assumes reach: "map fst (cache st) = take maxsize (recency ks)"
    and call: "fst (do_call c st) = Ok v"
    and few: "card (set (map call_key (c # later))) \<le> maxsize"
  shows "map_of (cache (run later (snd (do_call c st)))) (call_key c) = Some v"
  using few
proof (induction later rule: rev_induct)
  case Nil
  then show ?case using call by (simp add: do_call_stored)
next
  case (snoc d later)
  let ?st1 = "snd (do_call c st)"
  have "card (set (map call_key (c # later))) \<le> card (set (map call_key (c # later @ [d])))"
    by (intro card_mono) auto
  then have old: "map_of (cache (run later ?st1)) (call_key c) = Some v"
    using snoc by simp
  have "map fst (cache (run (c # later @ [d]) st)) =
      take maxsize (recency (ks @ map call_key (c # later @ [d])))"
    using reach by (rule run_keys)
  moreover have "call_key c \<in> set (map call_key (c # later @ [d]))" by simp
  ultimately have "call_key c \<in> set (map fst (cache (run (c # later @ [d]) st)))"
    using recent_in_take [OF snoc.prems, of ks] by auto
  then have "call_key c \<in> set (map fst (cache (snd (do_call d (run later ?st1)))))"
    by (simp add: run_append)
  from do_call_keeps [OF old this] show ?case by (simp add: run_append)
qed

lemma load_hit:
  "map_of (cache st) (loader_id self, n) = Some v \<Longrightarrow>
   load loads self n st = (Ok v, st\<lparr>cache := lru_hit (loader_id self, n) v (cache st)\<rparr>)"
  by (simp add: load_def)

text \<open>
  \<^bold>\<open>C4.\<close> In the state reached by any sequence of calls from a fresh process:
  \<^item> the cache holds the ten most recently used keys, in the order of their last use
    (so at most ten entries, one for a key);
  \<^item> a call whose key is cached returns the cached value and fetches nothing;
  \<^item> after a call of \<^verbatim>\<open>load(name)\<close>, and any further calls that together with it use
    at most ten distinct keys, a call for the same name returns the value the first
    call returned and fetches nothing, whatever the store would answer now;
  \<^item> with ten entries cached, a call for a new key stores its value first and drops
    the last entry, which is the least recently used of the ten.
\<close>

theorem load_lru_cache:
  "(let st = run cs proc0; used = recency (map call_key cs) in
    map fst (cache st) = take 10 used \<and>
    (\<forall>loads self name v.
       map_of (cache st) (loader_id self, name) = Some v \<longrightarrow>
       fst (load loads self name st) = Ok v \<and>
       fetched (snd (load loads self name st)) = fetched st) \<and>
    (\<forall>loads self name later loads' self'.
       loader_id self' = loader_id self \<and>
       card (set ((loader_id self, name) # map call_key later)) \<le> 10 \<longrightarrow>
       (let st2 = run later (snd (load loads self name st)) in
        fst (load loads' self' name st2) = fst (load loads self name st) \<and>
        fetched (snd (load loads' self' name st2)) = fetched st2)) \<and>
    (\<forall>loads self name.
       length (cache st) = 10 \<and> (loader_id self, name) \<notin> set (map fst (cache st)) \<longrightarrow>
       (\<exists>v. fst (load loads self name st) = Ok v \<and>
            cache (snd (load loads self name st)) =
              ((loader_id self, name), v) # butlast (cache st)) \<and>
       last (map fst (cache st)) = used ! 9))"
proof -
  let ?st = "run cs proc0"
  let ?used = "recency (map call_key cs)"
  have keys: "map fst (cache ?st) = take maxsize ?used" by (rule run_keys0)
  have hit: "fst (load loads self name ?st) = Ok v \<and>
       fetched (snd (load loads self name ?st)) = fetched ?st"
    if "map_of (cache ?st) (loader_id self, name) = Some v" for loads self name v
    using that by (simp add: load_hit)
  have again: "fst (load loads' self' name (run later (snd (load loads self name ?st)))) =
        fst (load loads self name ?st) \<and>
      fetched (snd (load loads' self' name (run later (snd (load loads self name ?st))))) =
        fetched (run later (snd (load loads self name ?st)))"
    if same: "loader_id self' = loader_id self"
      and few: "card (set ((loader_id self, name) # map call_key later)) \<le> 10"
    for loads self name later loads' self'
  proof -
    let ?c = "(loads, self, name)"
    obtain v where v: "fst (load loads self name ?st) = Ok v" using load_returns by blast
    then have "fst (do_call ?c ?st) = Ok v" by (simp add: do_call_def)
    moreover have "card (set (map call_key (?c # later))) \<le> maxsize"
      using few by (simp add: call_key_def maxsize_def)
    ultimately have "map_of (cache (run later (snd (do_call ?c ?st)))) (call_key ?c) = Some v"
      using keys by (intro run_keeps)
    then have "map_of (cache (run later (snd (load loads self name ?st)))) (loader_id self', name) =
        Some v"
      using same by (simp add: do_call_def call_key_def)
    then show ?thesis using v by (simp add: load_hit)
  qed
  have evict: "(\<exists>v. fst (load loads self name ?st) = Ok v \<and>
            cache (snd (load loads self name ?st)) =
              ((loader_id self, name), v) # butlast (cache ?st)) \<and>
       last (map fst (cache ?st)) = ?used ! 9"
    if full: "length (cache ?st) = 10"
      and new: "(loader_id self, name) \<notin> set (map fst (cache ?st))"
    for loads self name
  proof -
    let ?c = "(loads, self, name)"
    have "map_of (cache ?st) (call_key ?c) = None"
      using new by (simp add: call_key_def map_of_eq_None_iff)
    then obtain v st' where "cache st' = cache ?st"
      "do_call ?c ?st = (Ok v, st'\<lparr>cache := lru_miss (call_key ?c) v (cache ?st)\<rparr>)"
      using do_call_miss by blast
    then have "fst (load loads self name ?st) = Ok v \<and>
        cache (snd (load loads self name ?st)) = ((loader_id self, name), v) # butlast (cache ?st)"
      using full by (simp add: do_call_def call_key_def lru_miss_def maxsize_def)
    moreover have "last (map fst (cache ?st)) = ?used ! 9"
    proof -
      have len: "length (map fst (cache ?st)) = 10" using full by simp
      then have "map fst (cache ?st) \<noteq> []" by auto
      then have "last (map fst (cache ?st)) = map fst (cache ?st) ! 9"
        using len by (simp add: last_conv_nth)
      also have "\<dots> = ?used ! 9" by (simp add: keys maxsize_def)
      finally show ?thesis .
    qed
    ultimately show ?thesis by blast
  qed
  from keys have k10: "map fst (cache ?st) = take 10 ?used" by (simp add: maxsize_def)
  show ?thesis
    unfolding Let_def
    by (intro conjI) (rule k10, (use hit in blast), (use again in blast), (use evict in blast))
qed

text \<open>Ten names fill the cache and the eleventh evicts the first one; a document
  loaded once is returned again after nine other names, from a store that is down.\<close>

theorem load_lru_cache_witness:
  "map fst (cache (run ten_calls proc0)) =
     [(0, ''j''), (0, ''i''), (0, ''h''), (0, ''g''), (0, ''f''), (0, ''e''), (0, ''d''),
      (0, ''c''), (0, ''b''), (0, ''a'')] \<and>
   fst (load loads0 loader_down ''fields''
          (run calls_nine_names (snd (load loads0 loader0 ''fields'' proc0)))) =
     Ok (PList [PStr ''name'', PStr ''version'', PStr ''constraints'', PStr ''extractors'']) \<and>
   fetched (snd (load loads0 loader_down ''fields''
          (run calls_nine_names (snd (load loads0 loader0 ''fields'' proc0))))) =
     fetched (run calls_nine_names (snd (load loads0 loader0 ''fields'' proc0))) \<and>
   map fst (cache (snd (load loads0 loader0 ''k'' (run ten_calls proc0)))) =
     [(0, ''k''), (0, ''j''), (0, ''i''), (0, ''h''), (0, ''g''), (0, ''f''), (0, ''e''),
      (0, ''d''), (0, ''c''), (0, ''b'')] \<and>
   last (map fst (cache (run ten_calls proc0))) = (0, ''a'')"
proof -
  let ?st = "run ten_calls proc0"
  note thm10 = load_lru_cache [of ten_calls, unfolded Let_def]
  note thm0 = load_lru_cache [of "[]", unfolded Let_def]
  have used: "recency (map call_key ten_calls) =
     [(0, ''j''), (0, ''i''), (0, ''h''), (0, ''g''), (0, ''f''), (0, ''e''), (0, ''d''),
      (0, ''c''), (0, ''b''), (0, ''a'')]"
    by (simp add: ten_calls_def call_key_def loader0_def)
  have keys: "map fst (cache ?st) =
     [(0, ''j''), (0, ''i''), (0, ''h''), (0, ''g''), (0, ''f''), (0, ''e''), (0, ''d''),
      (0, ''c''), (0, ''b''), (0, ''a'')]"
    using thm10 [THEN conjunct1] by (simp add: used)
  have len: "length (cache ?st) = 10" using arg_cong [OF keys, of length] by simp
  have new: "(loader_id loader0, ''k'') \<notin> set (map fst (cache ?st))"
    unfolding keys by (simp add: loader0_def)
  from thm10 [THEN conjunct2, THEN conjunct2, THEN conjunct2, rule_format, of loader0 "''k''" loads0]
    len new
  obtain v where v: "cache (snd (load loads0 loader0 ''k'' ?st)) =
      ((loader_id loader0, ''k''), v) # butlast (cache ?st)"
    and lst: "last (map fst (cache ?st)) = recency (map call_key ten_calls) ! 9"
    by blast
  have evicted: "map fst (cache (snd (load loads0 loader0 ''k'' ?st))) =
     [(0, ''k''), (0, ''j''), (0, ''i''), (0, ''h''), (0, ''g''), (0, ''f''), (0, ''e''),
      (0, ''d''), (0, ''c''), (0, ''b'')]"
    unfolding v by (simp add: map_butlast keys loader0_def)
  have first: "fst (load loads0 loader0 ''fields'' proc0) =
     Ok (PList [PStr ''name'', PStr ''version'', PStr ''constraints'', PStr ''extractors''])"
    by (simp add: load_def proc0_def load_body_def load_try_def loader0_def client0_def
        loads0_def validate_ontology_def required_fields_def note_fetch_def fields_text_def
        partial_text_def Let_def)
  have few: "card (set ((loader_id loader0, ''fields'') # map call_key calls_nine_names)) \<le> 10"
    by (simp add: calls_nine_names_def call_key_def loader0_def card_insert_if)
  have same: "loader_id loader_down = loader_id loader0"
    by (simp add: loader_down_def loader0_def)
  from thm0 [THEN conjunct2, THEN conjunct2, THEN conjunct1, rule_format,
      of loader_down loader0 "''fields''" calls_nine_names loads0 loads0] same few
  have again: "fst (load loads0 loader_down ''fields''
          (run calls_nine_names (snd (load loads0 loader0 ''fields'' proc0)))) =
       fst (load loads0 loader0 ''fields'' proc0) \<and>
     fetched (snd (load loads0 loader_down ''fields''
          (run calls_nine_names (snd (load loads0 loader0 ''fields'' proc0))))) =
     fetched (run calls_nine_names (snd (load loads0 loader0 ''fields'' proc0)))"
    by simp
  from lst have "last (map fst (cache ?st)) = (0, ''a'')" by (simp add: used)
  with keys again first evicted show ?thesis by simp
qed

end
